theory Spec2Isabelle
  imports Main
begin

section \<open>The evaluation contexts of the elvish runtime (eval/eval.go)\<close>

text \<open>
  The runtime of eval.go works on objects reached through pointers: Ports, variable
  boxes, namespaces (Go maps) and Evalers. They live in an explicit store, one heap per
  kind of object; a reference is the address of a cell, and allocation takes the next
  unused address. A Go pointer that may be nil is a \<open>ref option\<close>, \<open>None\<close> being nil.
  Every panic of the Go runtime that the source can raise is a value of \<open>fault\<close>.
\<close>

type_synonym ref = nat

datatype fault = NilPointerDereference | IndexOutOfRange | MakeSliceLenOutOfRange

subsection \<open>Ports\<close>

text \<open>
  Modelled from the spec: the declaration of \<open>Port\<close> is not in eval.go. The spec gives
  it as an optional file handle, an optional value queue and two ownership flags, and
  eval.go builds it positionally as \<open>&Port{p.File, p.Chan, false, false}\<close>. File
  handles and channels are identified by a number; nil is \<open>None\<close>.
\<close>

record Port =
  File :: "nat option"
  Chan :: "nat option"
  shouldCloseFile :: bool
  shouldCloseChan :: bool

subsection \<open>Values, variables, namespaces, the Evaler and the store\<close>

text \<open>
  Modelled from the spec: the declarations of \<open>Value\<close>, \<open>BuiltinFn\<close> and
  \<open>Variable\<close> and the constructors \<open>newPtrVariable\<close> and \<open>newEnvVariable\<close> are not in
  eval.go. A value is one of the kinds eval.go builds (a string, a boolean, a list, the
  success value \<open>OK\<close>, a built-in function). A built-in function has a name and an
  implementation, the latter identified by a number. A variable is a box holding one value
  (\<open>PtrVariable\<close>, the address of its cell in the store) or a live binding to the
  environment variable of a given name (\<open>EnvVariable\<close>). \<open>Variable\<close> is an interface in
  Go, so where the source has a \<open>Variable\<close> the model has a \<open>Variable option\<close>, \<open>None\<close>
  being the nil interface.
\<close>

datatype BuiltinFn = BuiltinFn (Name: string) (Impl: nat)

datatype Value = String string | Bool bool | List "Value list" | OK | BuiltinFnValue BuiltinFn

datatype Variable = PtrVariable ref | EnvVariable string

text \<open>\<open>type ns map[string]Variable\<close>: the contents of one Go map.\<close>

type_synonym ns = "string \<rightharpoonup> Variable option"

text \<open>
  \<open>Evaler\<close>: \<open>global\<close> is a reference to a namespace, \<open>mod\<close> (an infix operator here,
  hence \<open>ev_mod\<close>) maps a module name to a reference to its namespace; the store handle and
  the editor are opaque and may be nil.
\<close>

record Evaler =
  global :: ref
  ev_mod :: "string \<rightharpoonup> ref"
  searchPaths :: "string list"
  store :: "nat option"
  Editor :: "nat option"

record heap =
  portHeap :: "Port list"
  varHeap :: "Value list"
  nsHeap :: "ns list"
  evalerHeap :: "Evaler list"

definition new_Port :: "Port \<Rightarrow> heap \<Rightarrow> ref \<times> heap" where
  "new_Port p h = (length (portHeap h), h\<lparr>portHeap := portHeap h @ [p]\<rparr>)"

definition new_ns :: "ns \<Rightarrow> heap \<Rightarrow> ref \<times> heap" where
  "new_ns m h = (length (nsHeap h), h\<lparr>nsHeap := nsHeap h @ [m]\<rparr>)"

definition new_Evaler :: "Evaler \<Rightarrow> heap \<Rightarrow> ref \<times> heap" where
  "new_Evaler e h = (length (evalerHeap h), h\<lparr>evalerHeap := evalerHeap h @ [e]\<rparr>)"

definition newPtrVariable :: "Value \<Rightarrow> heap \<Rightarrow> Variable \<times> heap" where
  "newPtrVariable v h = (PtrVariable (length (varHeap h)), h\<lparr>varHeap := varHeap h @ [v]\<rparr>)"

definition newEnvVariable :: "string \<Rightarrow> Variable" where
  "newEnvVariable nm = EnvVariable nm"

text \<open>\<open>m[k] = v\<close> on the namespace at address \<open>g\<close>.\<close>

definition ns_assign :: "ref \<Rightarrow> string \<Rightarrow> Variable option \<Rightarrow> heap \<Rightarrow> heap" where
  "ns_assign g k v h = h\<lparr>nsHeap := (nsHeap h)[g := (nsHeap h ! g)(k \<mapsto> v)]\<rparr>"

text \<open>\<open>m[k]\<close> in its one-result form: the zero value (nil) for a key that is not there.\<close>

definition map_index :: "ns \<Rightarrow> string \<Rightarrow> Variable option" where
  "map_index m k = (case m k of Some v \<Rightarrow> v | None \<Rightarrow> None)"

text \<open>The value a binding of a namespace holds, read through the box.\<close>

definition binding_value :: "heap \<Rightarrow> ref \<Rightarrow> string \<Rightarrow> Value option" where
  "binding_value h g k =
     (case (nsHeap h ! g) k of
        Some (Some (PtrVariable a)) \<Rightarrow> (if a < length (varHeap h) then Some (varHeap h ! a) else None)
      | _ \<Rightarrow> None)"

subsection \<open>NewEvaler\<close>

text \<open>
  The hosting process is a parameter: its environment (a map from names to values), its
  process id, and the table \<open>builtinFns\<close>, which is declared outside eval.go.
  \<open>os.Getenv\<close> gives the empty string for a variable that is not set.
\<close>

definition Getenv :: "(string \<rightharpoonup> string) \<Rightarrow> string \<Rightarrow> string" where
  "Getenv env k = (case env k of Some v \<Rightarrow> v | None \<Rightarrow> [])"

text \<open>\<open>strings.Split(s, sep)\<close> for a separator of one byte.\<close>

fun Split :: "string \<Rightarrow> char \<Rightarrow> string list" where
  "Split [] c = [[]]"
| "Split (x # xs) c =
     (if x = c then [] # Split xs c
      else (case Split xs c of [] \<Rightarrow> [[x]] | y # ys \<Rightarrow> (x # y) # ys))"

text \<open>\<open>strconv.Itoa\<close>: the decimal digits, after a minus sign for a negative number.\<close>

fun digits :: "nat \<Rightarrow> string" where
  "digits n = (if n < 10 then [''0123456789'' ! n] else digits (n div 10) @ [''0123456789'' ! (n mod 10)])"

definition Itoa :: "int \<Rightarrow> string" where
  "Itoa i = (if i < 0 then CHR ''-'' # digits (nat (- i)) else digits (nat i))"

definition FnPrefix :: string where
  "FnPrefix = ''&''"

text \<open>
  \<^verbatim>\<open>
  for _, b := range builtinFns {
      global[FnPrefix+b.Name] = newPtrVariable(b)
  }
  \<close>
\<close>

fun add_builtins :: "BuiltinFn list \<Rightarrow> ref \<Rightarrow> heap \<Rightarrow> heap" where
  "add_builtins [] g h = h"
| "add_builtins (b # bs) g h =
     (let (v, h1) = newPtrVariable (BuiltinFnValue b) h
      in add_builtins bs g (ns_assign g (FnPrefix @ Name b) (Some v) h1))"

text \<open>
  \<^verbatim>\<open>
  func NewEvaler(st *store.Store) *Evaler {
      var searchPaths []string
      if path := os.Getenv("PATH"); path != "" {
          searchPaths = strings.Split(path, ":")
      } else {
          searchPaths = []string{"/bin"}
      }
      pid := String(strconv.Itoa(syscall.Getpid()))
      paths := NewList()
      paths.appendStrings(searchPaths)
      global := ns{
          "pid":   newPtrVariable(pid),
          "ok":    newPtrVariable(OK),
          "true":  newPtrVariable(Bool(true)),
          "false": newPtrVariable(Bool(false)),
          "paths": newPtrVariable(paths),
      }
      for _, b := range builtinFns {
          global[FnPrefix+b.Name] = newPtrVariable(b)
      }
      return &Evaler{global, map[string]ns{}, searchPaths, st, nil}
  }
  \<close>
\<close>

definition resolve_searchPaths :: "(string \<rightharpoonup> string) \<Rightarrow> string list" where
  "resolve_searchPaths env =
     (let path = Getenv env ''PATH''
      in if path \<noteq> [] then Split path CHR '':'' else [''/bin''])"

definition NewEvaler ::
  "(string \<rightharpoonup> string) \<Rightarrow> int \<Rightarrow> BuiltinFn list \<Rightarrow> nat option \<Rightarrow> heap \<Rightarrow> ref \<times> heap" where
  "NewEvaler env pid builtinFns st h =
     (let searchPaths = resolve_searchPaths env;
          pidv = String (Itoa pid);
          paths = List (map String searchPaths);
          (v1, h1) = newPtrVariable pidv h;
          (v2, h2) = newPtrVariable OK h1;
          (v3, h3) = newPtrVariable (Bool True) h2;
          (v4, h4) = newPtrVariable (Bool False) h3;
          (v5, h5) = newPtrVariable paths h4;
          (g, h6) = new_ns [''pid'' \<mapsto> Some v1, ''ok'' \<mapsto> Some v2, ''true'' \<mapsto> Some v3,
                            ''false'' \<mapsto> Some v4, ''paths'' \<mapsto> Some v5] h5;
          h7 = add_builtins builtinFns g h6
      in new_Evaler \<lparr>global = g, ev_mod = Map.empty, searchPaths = searchPaths,
                      store = st, Editor = None\<rparr> h7)"

text \<open>The five names that \<open>NewEvaler\<close> binds whatever the table of built-ins holds.\<close>

definition fixed_names :: "string set" where
  "fixed_names = {''pid'', ''ok'', ''true'', ''false'', ''paths''}"

text \<open>
  The store once the map literal of \<open>NewEvaler\<close> has been evaluated, before the loop over
  the built-ins: five new boxes and one new namespace.
\<close>

definition base_heap :: "(string \<rightharpoonup> string) \<Rightarrow> int \<Rightarrow> heap \<Rightarrow> heap" where
  "base_heap env pid h =
     h\<lparr>varHeap := varHeap h @ [String (Itoa pid), OK, Bool True, Bool False,
                                List (map String (resolve_searchPaths env))],
       nsHeap := nsHeap h @
         [[''pid'' \<mapsto> Some (PtrVariable (length (varHeap h))),
           ''ok'' \<mapsto> Some (PtrVariable (length (varHeap h) + 1)),
           ''true'' \<mapsto> Some (PtrVariable (length (varHeap h) + 2)),
           ''false'' \<mapsto> Some (PtrVariable (length (varHeap h) + 3)),
           ''paths'' \<mapsto> Some (PtrVariable (length (varHeap h) + 4))]]\<rparr>"

subsection \<open>Contexts\<close>

text \<open>
  \<open>evalCtx\<close>: the embedded \<open>*Evaler\<close>, the three strings (\<open>text\<close> and \<open>context\<close> are
  reserved words here, hence the prefix), the two namespaces (Go maps, which are
  references) and the slice of Port pointers. A context is only ever built from an
  existing Evaler, so the embedded pointer is a plain reference.
\<close>

record evalCtx =
  Evaler :: ref
  name :: string
  ctx_text :: string
  ctx_context :: string
  local :: ref
  up :: ref
  ports :: "ref option list"

text \<open>
  Indexing a Go slice: the runtime checks both bounds and panics outside them. Go's
  \<open>int\<close> is modelled by \<open>int\<close>; the functions below only compare indices.
\<close>

definition slice_index :: "'a list \<Rightarrow> int \<Rightarrow> fault + 'a" where
  "slice_index xs i =
     (if 0 \<le> i \<and> i < int (length xs) then Inr (xs ! nat i) else Inl IndexOutOfRange)"

text \<open>
  \<^verbatim>\<open>
  func (ec *evalCtx) port(i int) *Port {
      if i >= len(ec.ports) { return nil }
      return ec.ports[i]
  }
  \<close>
\<close>

definition port :: "evalCtx \<Rightarrow> int \<Rightarrow> fault + ref option" where
  "port ec i =
     (if i \<ge> int (length (ports ec)) then Inr None
      else slice_index (ports ec) i)"

text \<open>
  \<open>make([]*Port, n)\<close> is \<open>n\<close> nils when the run-time system can allocate a slice of that
  length; for a negative \<open>n\<close> and for an \<open>n\<close> past the largest length it allocates it
  panics (\<open>makeslice: len out of range\<close>). That largest length depends on the platform
  and is a parameter, \<open>maxlen\<close>. On linux/amd64 the run-time system refuses a slice of more
  than \<open>2^48\<close> bytes, and a pointer has 8 bytes: \<open>maxlen_amd64\<close>. \<open>max_int\<close> is the
  largest value of Go's \<open>int\<close> there.
\<close>

definition make_ports :: "int \<Rightarrow> int \<Rightarrow> fault + ref option list" where
  "make_ports maxlen n =
     (if n < 0 \<or> maxlen < n then Inl MakeSliceLenOutOfRange
      else Inr (replicate (nat n) None))"

definition maxlen_amd64 :: int where
  "maxlen_amd64 = 2 ^ 45"

definition max_int :: int where
  "max_int = 9223372036854775807"

text \<open>
  \<open>copy(dst, src)\<close> overwrites the first \<open>min (len dst) (len src)\<close> elements of \<open>dst\<close>.
\<close>

definition copy_slice :: "'a list \<Rightarrow> 'a list \<Rightarrow> 'a list" where
  "copy_slice dst src =
     take (min (length dst) (length src)) src @ drop (min (length dst) (length src)) dst"

text \<open>
  \<^verbatim>\<open>
  func (ec *evalCtx) growPorts(n int) {
      if len(ec.ports) >= n { return }
      ports := ec.ports
      ec.ports = make([]*Port, n)
      copy(ec.ports, ports)
  }
  \<close>
  The method updates the context in place; the model returns the updated context. When
  \<open>make\<close> panics the assignment to \<open>ec.ports\<close> has not happened: the context is as it was
  and the result is the panic.
\<close>

definition growPorts :: "int \<Rightarrow> evalCtx \<Rightarrow> int \<Rightarrow> fault + evalCtx" where
  "growPorts maxlen ec n =
     (if int (length (ports ec)) \<ge> n then Inr ec
      else (case make_ports maxlen n of
              Inl f \<Rightarrow> Inl f
            | Inr new \<Rightarrow> Inr (ec\<lparr>ports := copy_slice new (ports ec)\<rparr>)))"

subsection \<open>Creating and forking contexts\<close>

text \<open>
  \<^verbatim>\<open>
  func NewTopEvalCtx(ev *Evaler, name, text string, ports []*Port) *evalCtx {
      return &evalCtx{ev, name, text, "top", ev.global, ns{}, ports}
  }
  \<close>
\<close>

definition NewTopEvalCtx ::
  "ref \<Rightarrow> string \<Rightarrow> string \<Rightarrow> ref option list \<Rightarrow> heap \<Rightarrow> evalCtx \<times> heap" where
  "NewTopEvalCtx ev nm txt ps h =
     (let (u, h1) = new_ns Map.empty h
      in (\<lparr>Evaler = ev, name = nm, ctx_text = txt, ctx_context = ''top'',
           local = global (evalerHeap h ! ev), up = u, ports = ps\<rparr>, h1))"

text \<open>
  The loop of \<open>fork\<close>, one port at a time, in order:
  \<^verbatim>\<open>
  for i, p := range ec.ports {
      newPorts[i] = &Port{p.File, p.Chan, false, false}
  }
  \<close>
  \<open>p.File\<close> reads through the pointer \<open>p\<close>, so a nil \<open>p\<close> is a nil pointer dereference: the
  loop stops there with the panic.
\<close>

fun fork_ports :: "ref option list \<Rightarrow> heap \<Rightarrow> fault + (ref option list \<times> heap)" where
  "fork_ports [] h = Inr ([], h)"
| "fork_ports (p # ps) h =
     (case p of
        None \<Rightarrow> Inl NilPointerDereference
      | Some a \<Rightarrow>
          (let (r, h1) = new_Port \<lparr>File = File (portHeap h ! a), Chan = Chan (portHeap h ! a),
                                    shouldCloseFile = False, shouldCloseChan = False\<rparr> h
           in (case fork_ports ps h1 of
                 Inl f \<Rightarrow> Inl f
               | Inr (rs, h2) \<Rightarrow> Inr (Some r # rs, h2))))"

text \<open>
  \<^verbatim>\<open>
  func (ec *evalCtx) fork(newContext string) *evalCtx {
      newPorts := make([]*Port, len(ec.ports))
      for i, p := range ec.ports { ... }
      return &evalCtx{ec.Evaler, ec.name, ec.text, newContext, ec.local, ec.up, newPorts}
  }
  \<close>
\<close>

definition fork :: "evalCtx \<Rightarrow> string \<Rightarrow> heap \<Rightarrow> fault + (evalCtx \<times> heap)" where
  "fork ec newContext h =
     (case fork_ports (ports ec) h of
        Inl f \<Rightarrow> Inl f
      | Inr (newPorts, h1) \<Rightarrow>
          Inr (\<lparr>Evaler = Evaler ec, name = name ec, ctx_text = ctx_text ec,
                ctx_context = newContext, local = local ec, up = up ec,
                ports = newPorts\<rparr>, h1))"

text \<open>The Port that \<open>fork\<close> builds from a Port: same file, same channel, no ownership.\<close>

definition cleared_copy :: "Port \<Rightarrow> Port" where
  "cleared_copy pt =
     \<lparr>File = File pt, Chan = Chan pt, shouldCloseFile = False, shouldCloseChan = False\<rparr>"

text \<open>Every Port pointer of a list is nil or the address of an allocated Port.\<close>

definition ports_allocated :: "heap \<Rightarrow> ref option list \<Rightarrow> bool" where
  "ports_allocated h ps = list_all (\<lambda>p. case p of None \<Rightarrow> True | Some a \<Rightarrow> a < length (portHeap h)) ps"

subsection \<open>ResolveVar\<close>

text \<open>
  \<^verbatim>\<open>
  func (ec *evalCtx) ResolveVar(ns, name string) Variable {
      if ns == "env" { return newEnvVariable(name) }
      if mod, ok := ec.mod[ns]; ok { return mod[name] }
      may := func(n string) bool { return ns == "" || ns == n }
      if may("local") { if v, ok := ec.local[name]; ok { return v } }
      if may("up") { if v, ok := ec.up[name]; ok { return v } }
      return nil
  }
  \<close>
\<close>

definition may :: "string \<Rightarrow> string \<Rightarrow> bool" where
  "may q n = (q = [] \<or> q = n)"

definition ResolveVar :: "heap \<Rightarrow> evalCtx \<Rightarrow> string \<Rightarrow> string \<Rightarrow> Variable option" where
  "ResolveVar h ec q nm =
     (if q = ''env'' then Some (newEnvVariable nm)
      else case ev_mod (evalerHeap h ! Evaler ec) q of
        Some m \<Rightarrow> map_index (nsHeap h ! m) nm
      | None \<Rightarrow>
          (case (if may q ''local'' then (nsHeap h ! local ec) nm else None) of
             Some v \<Rightarrow> v
           | None \<Rightarrow>
               (case (if may q ''up'' then (nsHeap h ! up ec) nm else None) of
                  Some v \<Rightarrow> v
                | None \<Rightarrow> None)))"

subsection \<open>Errors and PprintError\<close>

text \<open>
  Modelled from the spec: the error types of the package are declared outside eval.go.
  An \<open>error\<close> of Go is an interface, here an \<open>error option\<close> with \<open>None\<close> for nil. The
  dynamic types are the aggregate \<open>multiError\<close> (the \<open>inner\<close> error of each of its
  entries, in order), the flow-control signal \<open>flow\<close> (an unsigned number), the contextual
  error that \<open>errutil.NewContextualError\<close> builds (source name, title, source text, byte
  position, formatted message) and any other error, given by its message. The \<open>Error()\<close>
  methods are not in eval.go either: \<open>PprintError\<close> takes the function giving an error's
  message as a parameter.
\<close>

datatype error =
    multiError "error option list"
  | flow nat
  | ContextualError string string string int string
  | OtherError string

text \<open>The escape character that starts a terminal colour sequence, \<open>\033\<close> in Go.\<close>

definition ESC :: char where
  "ESC = CHR 0x1B"

text \<open>
  \<^verbatim>\<open>
  func PprintError(e error) {
      switch e := e.(type) {
      case nil:
          fmt.Print("\033[32mok\033[m")
      case multiError:
          fmt.Print("(")
          for i, c := range e.errors {
              if i > 0 { fmt.Print(" | ") }
              PprintError(c.inner)
          }
          fmt.Print(")")
      case flow:
          fmt.Print("\033[33m" + e.Error() + "\033[m")
      default:
          fmt.Print("\033[31;1m" + e.Error() + "\033[m")
      }
  }
  \<close>
  The model returns what is printed. \<open>pprint_opt\<close> is \<open>PprintError\<close> itself, on an
  interface value; \<open>pprint_val\<close> is its type switch on a non-nil one; \<open>pprint_loop\<close> is the
  loop, from the entry of index \<open>i\<close> on.
\<close>

primrec pprint_val :: "(error \<Rightarrow> string) \<Rightarrow> error \<Rightarrow> string"
  and pprint_opt :: "(error \<Rightarrow> string) \<Rightarrow> error option \<Rightarrow> string"
  and pprint_loop :: "(error \<Rightarrow> string) \<Rightarrow> error option list \<Rightarrow> nat \<Rightarrow> string" where
  "pprint_val E (multiError cs) = ''('' @ pprint_loop E cs 0 @ '')''"
| "pprint_val E (flow n) = ESC # ''[33m'' @ E (flow n) @ ESC # ''[m''"
| "pprint_val E (ContextualError a b c d e) =
     ESC # ''[31;1m'' @ E (ContextualError a b c d e) @ ESC # ''[m''"
| "pprint_val E (OtherError m) = ESC # ''[31;1m'' @ E (OtherError m) @ ESC # ''[m''"
| "pprint_opt E None = ESC # ''[32mok'' @ ESC # ''[m''"
| "pprint_opt E (Some e) = pprint_val E e"
| "pprint_loop E [] i = []"
| "pprint_loop E (c # cs) i =
     (if i > 0 then '' | '' else []) @ pprint_opt E c @ pprint_loop E cs (i + 1)"

definition PprintError :: "(error \<Rightarrow> string) \<Rightarrow> error option \<Rightarrow> string" where
  "PprintError E e = pprint_opt E e"

text \<open>
  The rendering the specification describes for an aggregate: the renderings of the
  entries, in order, with the delimiter between neighbours.
\<close>

fun join_with :: "string \<Rightarrow> string list \<Rightarrow> string" where
  "join_with sep [] = []"
| "join_with sep [x] = x"
| "join_with sep (x # y # ys) = x @ sep @ join_with sep (y # ys)"

subsection \<open>Protected evaluation\<close>

text \<open>
  Modelled from the spec: \<open>throw\<close>, \<open>errutil.NewContextualError\<close> and \<open>errutil.Catch\<close>
  are not in eval.go. By the spec, \<open>errorf\<close> raises a non-local exit signal carrying a
  contextual error, and the protected evaluation intercepts such a signal and returns
  its error. A compiled operation (\<open>Op\<close>, a Go function on a context) therefore ends in
  one of three ways: it returns, it raises a signal carrying an error, or the Go runtime
  panics. The spec says nothing of a runtime panic at the boundary; in the model it is
  not converted to an error and leaves \<open>PEval\<close> as the panic it is.
\<close>

datatype outcome = Returned | Thrown error | Panicked fault

type_synonym Op = "evalCtx \<Rightarrow> heap \<Rightarrow> outcome \<times> heap"

definition throw :: "error \<Rightarrow> heap \<Rightarrow> outcome \<times> heap" where
  "throw e h = (Thrown e, h)"

definition NewContextualError :: "string \<Rightarrow> string \<Rightarrow> string \<Rightarrow> int \<Rightarrow> string \<Rightarrow> error" where
  "NewContextualError srcname title txt pos msg = ContextualError srcname title txt pos msg"

definition Catch :: "outcome \<times> heap \<Rightarrow> (fault + error option) \<times> heap" where
  "Catch r =
     (case r of
        (Returned, h) \<Rightarrow> (Inr None, h)
      | (Thrown e, h) \<Rightarrow> (Inr (Some e), h)
      | (Panicked f, h) \<Rightarrow> (Inl f, h))"

text \<open>
  \<^verbatim>\<open>
  func (ec *evalCtx) PEval(op Op) (ex error) {
      defer errutil.Catch(&ex)
      op(ec)
      return nil
  }
  \<close>
\<close>

definition PEval :: "evalCtx \<Rightarrow> Op \<Rightarrow> heap \<Rightarrow> (fault + error option) \<times> heap" where
  "PEval ec op h = Catch (op ec h)"

text \<open>
  \<^verbatim>\<open>
  func (ec *evalCtx) errorf(p int, format string, args ...interface{}) {
      throw(errutil.NewContextualError(
          fmt.Sprintf("%s (%s)", ec.name, ec.context), "error",
          ec.text, p, format, args...))
  }
  \<close>
  \<open>msg\<close> stands for the message that \<open>format\<close> and \<open>args\<close> give.
\<close>

definition errorf :: "evalCtx \<Rightarrow> int \<Rightarrow> string \<Rightarrow> heap \<Rightarrow> outcome \<times> heap" where
  "errorf ec p msg h =
     throw (NewContextualError (name ec @ '' ('' @ ctx_context ec @ '')'') ''error''
              (ctx_text ec) p msg) h"

text \<open>
  Modelled from the spec: the compiler that builds the operations is not in eval.go. By
  the spec, nested blocks and pipeline stages run in child contexts made by \<open>fork\<close>, and
  install no recovery boundary of their own. \<open>in_fork\<close> is such an operation: it forks the
  context it is given and runs an operation in the child. \<open>fork\<close> has no \<open>defer\<close> and no
  \<open>recover\<close>, so whatever the inner operation ends in is what this one ends in; a panic
  of \<open>fork\<close> itself is a panic of the operation.
\<close>

definition in_fork :: "string \<Rightarrow> Op \<Rightarrow> Op" where
  "in_fork label op ec h =
     (case fork ec label h of
        Inl f \<Rightarrow> (Panicked f, h)
      | Inr (ec', h') \<Rightarrow> op ec' h')"

text \<open>An operation run under a stack of forks, the outermost label first.\<close>

fun nested_forks :: "string list \<Rightarrow> Op \<Rightarrow> Op" where
  "nested_forks [] op = op"
| "nested_forks (l # ls) op = in_fork l (nested_forks ls op)"

text \<open>The phase label of the context an operation sees under a stack of forks.\<close>

definition innermost_label :: "evalCtx \<Rightarrow> string list \<Rightarrow> string" where
  "innermost_label ec labels = (if labels = [] then ctx_context ec else last labels)"

subsection \<open>Concrete stores and contexts\<close>

text \<open>
  A store with nothing allocated; a store with two Ports, the first of which owns its
  file; a context of a program \<open>prog\<close> with given Port pointers.
\<close>

definition empty_heap :: heap where
  "empty_heap = \<lparr>portHeap = [], varHeap = [], nsHeap = [], evalerHeap = []\<rparr>"

definition two_port_heap :: heap where
  "two_port_heap =
     \<lparr>portHeap = [\<lparr>File = Some 0, Chan = None, shouldCloseFile = True, shouldCloseChan = False\<rparr>,
                  \<lparr>File = Some 1, Chan = Some 7, shouldCloseFile = False, shouldCloseChan = True\<rparr>],
      varHeap = [], nsHeap = [], evalerHeap = []\<rparr>"

definition example_ctx :: "ref option list \<Rightarrow> evalCtx" where
  "example_ctx ps =
     \<lparr>Evaler = 0, name = ''prog'', ctx_text = ''put a'', ctx_context = ''top'',
      local = 0, up = 1, ports = ps\<rparr>"

text \<open>
  A store for variable resolution: one Evaler with a module \<open>re\<close>; the namespace 0 (the
  local one of \<open>example_ctx\<close>) binds \<open>x\<close>, the namespace 1 (its captured-enclosing one)
  binds \<open>x\<close> and \<open>y\<close>, the namespace 2 (the module's) binds \<open>match\<close>.
\<close>

definition resolve_heap :: heap where
  "resolve_heap =
     \<lparr>portHeap = [],
      varHeap = [String ''local x'', String ''up x'', String ''up y'', OK],
      nsHeap = [[''x'' \<mapsto> Some (PtrVariable 0)],
                [''x'' \<mapsto> Some (PtrVariable 1), ''y'' \<mapsto> Some (PtrVariable 2)],
                [''match'' \<mapsto> Some (PtrVariable 3)]],
      evalerHeap = [\<lparr>global = 0, ev_mod = [''re'' \<mapsto> 2], searchPaths = [''/bin''],
                     store = None, Editor = None\<rparr>]\<rparr>"

text \<open>An environment with a search path of two entries, and a table of two built-ins.\<close>

definition example_env :: "string \<rightharpoonup> string" where
  "example_env = [''PATH'' \<mapsto> ''/usr/bin:/bin'']"

definition example_builtins :: "BuiltinFn list" where
  "example_builtins = [BuiltinFn ''put'' 0, BuiltinFn ''echo'' 1]"

section \<open>Properties\<close>

subsection \<open>Port access\<close>

text \<open>
  Claim C10. \<open>port\<close> guards the upper bound only: on every negative index it ends in
  the out-of-range panic of the slice access, on every other index it returns.
\<close>

theorem port_negative_index_faults:
  "(i < 0 \<longrightarrow> port ec i = Inl IndexOutOfRange) \<and> (0 \<le> i \<longrightarrow> (\<exists>r. port ec i = Inr r))"
  by (simp add: port_def slice_index_def)

theorem port_negative_index_faults_witness:
  "port (example_ctx [Some 0]) (- 1) = Inl IndexOutOfRange \<and>
   (\<exists>r. port (example_ctx [Some 0]) 0 = Inr r)"
  using port_negative_index_faults[of "- 1" "example_ctx [Some 0]"]
    port_negative_index_faults[of 0 "example_ctx [Some 0]"]
  by simp

text \<open>
  Claim C5, as stated, promises the stored element for every index below the length. A
  negative index is below the length and gives the panic instead.
\<close>

theorem port_below_length_counterexample:
  "- 1 < int (length (ports (example_ctx [Some 0]))) \<and>
   port (example_ctx [Some 0]) (- 1) = Inl IndexOutOfRange"
  by (simp add: port_def slice_index_def example_ctx_def)

text \<open>
  Claim C5, amended. On every index at or past the length of the Port sequence \<open>port\<close>
  returns nil, without a panic; on every index from 0 up to the length it returns the
  pointer stored at that position.
\<close>

theorem port_infinite_tail:
  "(int (length (ports ec)) \<le> i \<longrightarrow> port ec i = Inr None) \<and>
   (0 \<le> i \<and> i < int (length (ports ec)) \<longrightarrow> port ec i = Inr (ports ec ! nat i))"
  by (simp add: port_def slice_index_def)

theorem port_infinite_tail_witness:
  "port (example_ctx [Some 0, None]) 2 = Inr None \<and>
   port (example_ctx [Some 0, None]) 0 = Inr (Some 0)"
proof -
  have p: "ports (example_ctx [Some 0, None]) = [Some 0, None]"
    by (simp add: example_ctx_def)
  show ?thesis
    using port_infinite_tail[of "example_ctx [Some 0, None]" 2]
      port_infinite_tail[of "example_ctx [Some 0, None]" 0] p
    by simp
qed

subsection \<open>Growing the Port sequence\<close>

lemma copy_slice_replicate:
  "length ps \<le> k \<Longrightarrow> copy_slice (replicate k None) ps = ps @ replicate (k - length ps) None"
  by (simp add: copy_slice_def min_def)

lemma growPorts_returns:
  "n \<le> int (length (ports ec)) \<or> n \<le> maxlen \<Longrightarrow> \<exists>ec'. growPorts maxlen ec n = Inr ec'"
  by (auto simp: growPorts_def make_ports_def)

lemma growPorts_ports:
  "growPorts maxlen ec n = Inr ec' \<Longrightarrow>
   ports ec' = ports ec @ replicate (nat n - length (ports ec)) None"
  by (auto simp: growPorts_def make_ports_def copy_slice_replicate split: if_splits)

lemma growPorts_frame:
  "growPorts maxlen ec n = Inr ec' \<Longrightarrow>
   Evaler ec' = Evaler ec \<and> name ec' = name ec \<and> ctx_text ec' = ctx_text ec \<and>
   ctx_context ec' = ctx_context ec \<and> local ec' = local ec \<and> up ec' = up ec"
  by (auto simp: growPorts_def make_ports_def split: if_splits)

lemma growPorts_again:
  "growPorts maxlen ec n = Inr ec' \<Longrightarrow> growPorts maxlen ec' n = Inr ec'"
proof -
  assume r: "growPorts maxlen ec n = Inr ec'"
  from growPorts_ports[OF r] have "n \<le> int (length (ports ec'))" by simp
  then show ?thesis by (simp add: growPorts_def)
qed

text \<open>
  Claim C6, as stated, promises a sequence of length \<open>n\<close> for every \<open>n\<close> above the current
  length. For the largest \<open>int\<close> the \<open>make\<close> of \<open>growPorts\<close> panics on linux/amd64, and
  the sequence stays as it was.
\<close>

theorem growPorts_unallocatable_counterexample:
  "int (length (ports (example_ctx [Some 0, Some 1]))) < max_int \<and>
   growPorts maxlen_amd64 (example_ctx [Some 0, Some 1]) max_int = Inl MakeSliceLenOutOfRange"
  by (simp add: growPorts_def make_ports_def example_ctx_def max_int_def maxlen_amd64_def)

text \<open>
  Claim C6, amended. For every \<open>n\<close> that is at most the current length of the Port
  sequence or at most the largest length the run-time system allocates, \<open>growPorts\<close>
  returns. Whenever it returns it is idempotent and monotone: the context is returned as
  it is when the sequence already has at least \<open>n\<close> entries; otherwise the sequence
  becomes the old one followed by nil entries, of length \<open>n\<close>. The old entries stay where
  they were (the same pointers, so the same Port objects with the same ownership flags:
  the store is not touched), also after a second call with any other \<open>n\<close>, smaller or
  larger; the sequence never gets shorter, and no other field of the context changes.
\<close>

theorem growPorts_idempotent_monotone:
  "((n \<le> int (length (ports ec)) \<or> n \<le> maxlen) \<longrightarrow> (\<exists>ec'. growPorts maxlen ec n = Inr ec')) \<and>
   (growPorts maxlen ec n = Inr ec' \<longrightarrow>
      (n \<le> int (length (ports ec)) \<longrightarrow> ec' = ec) \<and>
      (int (length (ports ec)) < n \<longrightarrow>
         ports ec' = ports ec @ replicate (nat n - length (ports ec)) None \<and>
         int (length (ports ec')) = n) \<and>
      growPorts maxlen ec' n = Inr ec' \<and>
      int (length (ports ec')) = max (int (length (ports ec))) n \<and>
      take (length (ports ec)) (ports ec') = ports ec \<and>
      Evaler ec' = Evaler ec \<and> name ec' = name ec \<and> ctx_text ec' = ctx_text ec \<and>
      ctx_context ec' = ctx_context ec \<and> local ec' = local ec \<and> up ec' = up ec) \<and>
   (growPorts maxlen ec m = Inr eca \<and> growPorts maxlen eca n = Inr ecb \<longrightarrow>
      length (ports eca) \<le> length (ports ecb) \<and>
      take (length (ports eca)) (ports ecb) = ports eca \<and>
      take (length (ports ec)) (ports ecb) = ports ec)"
proof -
  have A: "(n \<le> int (length (ports ec)) \<or> n \<le> maxlen) \<longrightarrow>
             (\<exists>ec'. growPorts maxlen ec n = Inr ec')"
    using growPorts_returns by blast
  have B: "(n \<le> int (length (ports ec)) \<longrightarrow> ec' = ec) \<and>
      (int (length (ports ec)) < n \<longrightarrow>
         ports ec' = ports ec @ replicate (nat n - length (ports ec)) None \<and>
         int (length (ports ec')) = n) \<and>
      growPorts maxlen ec' n = Inr ec' \<and>
      int (length (ports ec')) = max (int (length (ports ec))) n \<and>
      take (length (ports ec)) (ports ec') = ports ec \<and>
      Evaler ec' = Evaler ec \<and> name ec' = name ec \<and> ctx_text ec' = ctx_text ec \<and>
      ctx_context ec' = ctx_context ec \<and> local ec' = local ec \<and> up ec' = up ec"
    if r: "growPorts maxlen ec n = Inr ec'"
  proof -
    note p = growPorts_ports[OF r]
    have 1: "n \<le> int (length (ports ec)) \<longrightarrow> ec' = ec"
      using r by (auto simp: growPorts_def)
    have 2: "int (length (ports ec)) < n \<longrightarrow>
         ports ec' = ports ec @ replicate (nat n - length (ports ec)) None \<and>
         int (length (ports ec')) = n"
      using p by simp
    have 3: "int (length (ports ec')) = max (int (length (ports ec))) n"
      using p by auto
    have 4: "take (length (ports ec)) (ports ec') = ports ec"
      using p by simp
    from 1 2 3 4 growPorts_again[OF r] growPorts_frame[OF r] show ?thesis by simp
  qed
  have C: "length (ports eca) \<le> length (ports ecb) \<and>
      take (length (ports eca)) (ports ecb) = ports eca \<and>
      take (length (ports ec)) (ports ecb) = ports ec"
    if r1: "growPorts maxlen ec m = Inr eca" and r2: "growPorts maxlen eca n = Inr ecb"
  proof -
    note p1 = growPorts_ports[OF r1] and p2 = growPorts_ports[OF r2]
    have 1: "length (ports eca) \<le> length (ports ecb)" using p2 by simp
    have 2: "take (length (ports eca)) (ports ecb) = ports eca" using p2 by simp
    have "take (length (ports ec)) (take (length (ports eca)) (ports ecb)) = ports ec"
      unfolding 2 using p1 by simp
    then have 3: "take (length (ports ec)) (ports ecb) = ports ec"
      using p1 by (simp add: min_def)
    from 1 2 3 show ?thesis by simp
  qed
  from A B C show ?thesis by blast
qed

theorem growPorts_idempotent_monotone_witness:
  "growPorts maxlen_amd64 (example_ctx [Some 0, Some 1]) 1 = Inr (example_ctx [Some 0, Some 1]) \<and>
   growPorts maxlen_amd64 (example_ctx [Some 0, Some 1]) 4
     = Inr (example_ctx [Some 0, Some 1, None, None]) \<and>
   growPorts maxlen_amd64 (example_ctx [Some 0, Some 1, None, None]) 3
     = Inr (example_ctx [Some 0, Some 1, None, None]) \<and>
   take 2 (ports (example_ctx [Some 0, Some 1, None, None])) = ports (example_ctx [Some 0, Some 1])"
proof -
  let ?ec = "example_ctx [Some 0, Some 1]" and ?ec4 = "example_ctx [Some 0, Some 1, None, None]"
  have l: "length (ports ?ec) = 2" "length (ports ?ec4) = 4"
    by (simp_all add: example_ctx_def)
  have m: "(4::int) \<le> maxlen_amd64" by (simp add: maxlen_amd64_def)
  note returns = growPorts_idempotent_monotone[THEN conjunct1, rule_format]
  note result = growPorts_idempotent_monotone[THEN conjunct2, THEN conjunct1, rule_format]
  note twice = growPorts_idempotent_monotone[THEN conjunct2, THEN conjunct2, rule_format]
  have "1 \<le> int (length (ports ?ec)) \<or> 1 \<le> maxlen_amd64" using l by simp
  from returns[OF this] obtain e1 where e1: "growPorts maxlen_amd64 ?ec 1 = Inr e1" by blast
  have "e1 = ?ec" using result[OF e1] l by simp
  with e1 have 1: "growPorts maxlen_amd64 ?ec 1 = Inr ?ec" by simp
  have "4 \<le> int (length (ports ?ec)) \<or> 4 \<le> maxlen_amd64" using m by simp
  from returns[OF this] obtain e4 where e4: "growPorts maxlen_amd64 ?ec 4 = Inr e4" by blast
  from result[OF e4] l
  have "ports e4 = ports ?ec @ replicate (nat 4 - 2) None" "Evaler e4 = Evaler ?ec"
    "name e4 = name ?ec" "ctx_text e4 = ctx_text ?ec" "ctx_context e4 = ctx_context ?ec"
    "local e4 = local ?ec" "up e4 = up ?ec"
    by simp_all
  then have "e4 = ?ec4"
    by (simp add: example_ctx_def eval_nat_numeral)
  with e4 have 2: "growPorts maxlen_amd64 ?ec 4 = Inr ?ec4" by simp
  have "3 \<le> int (length (ports ?ec4)) \<or> 3 \<le> maxlen_amd64" using l by simp
  from returns[OF this] obtain e3 where e3: "growPorts maxlen_amd64 ?ec4 3 = Inr e3" by blast
  have "e3 = ?ec4" using result[OF e3] l by simp
  with e3 have 3: "growPorts maxlen_amd64 ?ec4 3 = Inr ?ec4" by simp
  have "growPorts maxlen_amd64 ?ec 4 = Inr ?ec4 \<and> growPorts maxlen_amd64 ?ec4 3 = Inr ?ec4"
    using 2 3 by simp
  from twice[OF this] l have 4: "take 2 (ports ?ec4) = ports ?ec" by simp
  from 1 2 3 4 show ?thesis by blast
qed

subsection \<open>Forking a context\<close>

lemma fork_ports_nil: "None \<in> set ps \<Longrightarrow> fork_ports ps h = Inl NilPointerDereference"
proof (induction ps arbitrary: h)
  case Nil
  then show ?case by simp
next
  case (Cons p ps)
  show ?case
  proof (cases p)
    case None
    then show ?thesis by simp
  next
    case (Some a)
    with Cons.prems have "None \<in> set ps" by simp
    then show ?thesis using Some by (simp add: Cons.IH new_Port_def)
  qed
qed

lemma fork_ports_present:
  "None \<notin> set ps \<Longrightarrow>
   \<exists>rs h'. fork_ports ps h = Inr (rs, h') \<and> length rs = length ps \<and> None \<notin> set rs
      \<and> varHeap h' = varHeap h \<and> nsHeap h' = nsHeap h \<and> evalerHeap h' = evalerHeap h
      \<and> length (portHeap h') = length (portHeap h) + length ps
      \<and> take (length (portHeap h)) (portHeap h') = portHeap h"
proof (induction ps arbitrary: h)
  case Nil
  then show ?case by simp
next
  case (Cons p ps)
  then obtain a where p: "p = Some a" by (cases p) auto
  define h1 where "h1 = snd (new_Port \<lparr>File = File (portHeap h ! a), Chan = Chan (portHeap h ! a),
                                    shouldCloseFile = False, shouldCloseChan = False\<rparr> h)"
  from Cons.prems have "None \<notin> set ps" by simp
  from Cons.IH[OF this, of h1] obtain rs h' where
    r: "fork_ports ps h1 = Inr (rs, h')" "length rs = length ps" "None \<notin> set rs"
      "varHeap h' = varHeap h1" "nsHeap h' = nsHeap h1" "evalerHeap h' = evalerHeap h1"
      "length (portHeap h') = length (portHeap h1) + length ps"
      "take (length (portHeap h1)) (portHeap h') = portHeap h1"
    by blast
  have h1: "portHeap h1 = portHeap h @ [\<lparr>File = File (portHeap h ! a), Chan = Chan (portHeap h ! a),
                                    shouldCloseFile = False, shouldCloseChan = False\<rparr>]"
     "varHeap h1 = varHeap h" "nsHeap h1 = nsHeap h" "evalerHeap h1 = evalerHeap h"
    by (simp_all add: h1_def new_Port_def)
  have "take (length (portHeap h)) (take (length (portHeap h1)) (portHeap h')) = portHeap h"
    using r(8) h1(1) by simp
  then have tk: "take (length (portHeap h)) (portHeap h') = portHeap h"
    using h1(1) by (simp add: min_def)
  have "fork_ports (p # ps) h = Inr (Some (length (portHeap h)) # rs, h')"
    using r(1) p by (simp add: h1_def new_Port_def)
  then show ?case using r h1 tk by simp
qed

lemma fork_nil: "None \<in> set (ports ec) \<Longrightarrow> fork ec l h = Inl NilPointerDereference"
  by (simp add: fork_def fork_ports_nil)

lemma fork_present:
  assumes "None \<notin> set (ports ec)"
  shows "\<exists>ec' h'. fork ec l h = Inr (ec', h') \<and> Evaler ec' = Evaler ec \<and> name ec' = name ec
     \<and> ctx_text ec' = ctx_text ec \<and> ctx_context ec' = l \<and> local ec' = local ec \<and> up ec' = up ec
     \<and> length (ports ec') = length (ports ec) \<and> None \<notin> set (ports ec')"
proof -
  from fork_ports_present[OF assms, of h] obtain rs h' where
    "fork_ports (ports ec) h = Inr (rs, h')" "length rs = length (ports ec)" "None \<notin> set rs"
    by blast
  then show ?thesis by (simp add: fork_def)
qed

text \<open>
  Claim C9. \<open>fork\<close> returns only when every entry of the parent's Port sequence is
  there: on a context with a nil entry it ends in the nil pointer dereference of
  \<open>p.File\<close>, and does not hand the nil entry on to the child; a context that \<open>growPorts\<close>
  has returned after extending the sequence is such a context. With no nil entry \<open>fork\<close>
  returns a context.
\<close>

theorem fork_faults_on_nil_port:
  "(None \<in> set (ports ec) \<longrightarrow> fork ec label h = Inl NilPointerDereference) \<and>
   (None \<notin> set (ports ec) \<longrightarrow> (\<exists>ec' h'. fork ec label h = Inr (ec', h'))) \<and>
   (growPorts maxlen ec n = Inr eca \<and> int (length (ports ec)) < n \<longrightarrow>
      fork eca label h = Inl NilPointerDereference)"
proof -
  have "None \<in> set (ports eca)"
    if "growPorts maxlen ec n = Inr eca" and "int (length (ports ec)) < n"
  proof -
    from that(2) have "0 < nat n - length (ports ec)" by simp
    then show ?thesis by (simp add: growPorts_ports[OF that(1)])
  qed
  then show ?thesis
    using fork_nil[of ec label h] fork_nil[of eca label h] fork_present[of ec label h]
    by blast
qed

theorem fork_faults_on_nil_port_witness:
  "fork (example_ctx [Some 0, None]) ''pipe'' two_port_heap = Inl NilPointerDereference \<and>
   (\<exists>ec' h'. fork (example_ctx [Some 0, Some 1]) ''pipe'' two_port_heap = Inr (ec', h')) \<and>
   growPorts maxlen_amd64 (example_ctx [Some 0, Some 1]) 3
     = Inr (example_ctx [Some 0, Some 1, None]) \<and>
   fork (example_ctx [Some 0, Some 1, None]) ''pipe'' two_port_heap = Inl NilPointerDereference"
proof -
  have a: "None \<in> set (ports (example_ctx [Some 0, None]))"
    and b: "None \<notin> set (ports (example_ctx [Some 0, Some 1]))"
    and c: "int (length (ports (example_ctx [Some 0, Some 1]))) < 3"
    by (simp_all add: example_ctx_def)
  have g: "growPorts maxlen_amd64 (example_ctx [Some 0, Some 1]) 3
             = Inr (example_ctx [Some 0, Some 1, None])"
    by (simp add: growPorts_def make_ports_def copy_slice_def example_ctx_def maxlen_amd64_def)
  show ?thesis
    using fork_faults_on_nil_port[where ec = "example_ctx [Some 0, None]" and label = "''pipe''"
        and h = two_port_heap]
      fork_faults_on_nil_port[where ec = "example_ctx [Some 0, Some 1]" and label = "''pipe''"
        and h = two_port_heap and maxlen = maxlen_amd64 and n = 3
        and eca = "example_ctx [Some 0, Some 1, None]"]
      a b c g
    by blast
qed

text \<open>
  Claim C2 promises a child context for every context. On the context that \<open>growPorts\<close>
  leaves behind when it extends an empty Port sequence to one entry, \<open>fork\<close> panics.
\<close>

theorem fork_after_growPorts_panics:
  "growPorts maxlen_amd64 (example_ctx []) 1 = Inr (example_ctx [None]) \<and>
   ports (example_ctx [None]) = [None] \<and>
   fork (example_ctx [None]) ''pipe'' empty_heap = Inl NilPointerDereference"
  by (simp add: fork_def growPorts_def example_ctx_def copy_slice_def make_ports_def
        maxlen_amd64_def)

lemma fork_ports_copies:
  "None \<notin> set ps \<Longrightarrow> ports_allocated h ps \<Longrightarrow> fork_ports ps h = Inr (rs, h') \<Longrightarrow>
   portHeap h' = portHeap h @ map (\<lambda>p. cleared_copy (portHeap h ! the p)) ps \<and>
   rs = map Some [length (portHeap h) ..< length (portHeap h) + length ps]"
proof (induction ps arbitrary: h rs)
  case Nil
  then show ?case by simp
next
  case (Cons p ps)
  then obtain a where p: "p = Some a" by (cases p) auto
  define h1 where "h1 = h\<lparr>portHeap := portHeap h @ [cleared_copy (portHeap h ! a)]\<rparr>"
  have ph1: "portHeap h1 = portHeap h @ [cleared_copy (portHeap h ! a)]"
    by (simp add: h1_def)
  from Cons.prems(3) p obtain rs' where
    r: "fork_ports ps h1 = Inr (rs', h')" "rs = Some (length (portHeap h)) # rs'"
    by (auto simp: new_Port_def h1_def cleared_copy_def split: sum.splits)
  have n: "None \<notin> set ps" using Cons.prems(1) by simp
  have al: "ports_allocated h1 ps" using Cons.prems(2)
    by (auto simp: ports_allocated_def h1_def list_all_iff split: option.splits)
  have same: "cleared_copy (portHeap h1 ! the q) = cleared_copy (portHeap h ! the q)"
    if "q \<in> set ps" for q
  proof -
    from that n have "q \<noteq> None" by metis
    then obtain b where q: "q = Some b" by auto
    from q that Cons.prems(2) have "b < length (portHeap h)"
      by (auto simp: ports_allocated_def list_all_iff)
    with q show ?thesis by (simp add: ph1 nth_append)
  qed
  then have maps: "map (\<lambda>p. cleared_copy (portHeap h1 ! the p)) ps =
                   map (\<lambda>p. cleared_copy (portHeap h ! the p)) ps"
    by simp
  from Cons.IH[OF n al r(1)] have
    ih1: "portHeap h' = portHeap h1 @ map (\<lambda>p. cleared_copy (portHeap h1 ! the p)) ps" and
    ih2: "rs' = map Some [length (portHeap h1) ..< length (portHeap h1) + length ps]"
    by simp_all
  have 1: "portHeap h' = portHeap h @ map (\<lambda>p. cleared_copy (portHeap h ! the p)) (p # ps)"
    unfolding ih1 maps by (simp add: ph1 p)
  have "[length (portHeap h) ..< length (portHeap h) + length (p # ps)] =
        length (portHeap h) # [length (portHeap h1) ..< length (portHeap h1) + length ps]"
    by (subst upt_rec) (simp add: ph1)
  then have 2: "rs = map Some [length (portHeap h) ..< length (portHeap h) + length (p # ps)]"
    by (simp add: r(2) ih2)
  from 1 2 show ?case by simp
qed

text \<open>
  What \<open>fork\<close> returns when every Port of the parent is there (and allocated): a context
  with the same Evaler, name, text and namespaces, the new phase label, and Port pointers
  that are all new addresses, one per Port of the parent; at each new address the store
  holds the copy of the parent's Port with both ownership flags cleared. The Ports that
  were in the store are untouched, and so is the rest of the store.
\<close>

lemma fork_copies_ports:
  assumes "None \<notin> set (ports ec)" and "ports_allocated h (ports ec)"
  shows "\<exists>ec' h'. fork ec label h = Inr (ec', h') \<and>
     Evaler ec' = Evaler ec \<and> name ec' = name ec \<and> ctx_text ec' = ctx_text ec \<and>
     ctx_context ec' = label \<and> local ec' = local ec \<and> up ec' = up ec \<and>
     ports ec' = map Some [length (portHeap h) ..< length (portHeap h) + length (ports ec)] \<and>
     portHeap h' = portHeap h @ map (\<lambda>p. cleared_copy (portHeap h ! the p)) (ports ec) \<and>
     varHeap h' = varHeap h \<and> nsHeap h' = nsHeap h \<and> evalerHeap h' = evalerHeap h"
proof -
  from fork_ports_present[OF assms(1), of h] obtain rs h' where
    r: "fork_ports (ports ec) h = Inr (rs, h')"
      "varHeap h' = varHeap h" "nsHeap h' = nsHeap h" "evalerHeap h' = evalerHeap h"
    by blast
  from fork_ports_copies[OF assms r(1)] r show ?thesis
    by (simp add: fork_def)
qed

subsection \<open>Protected evaluation and errorf\<close>

lemma nested_errorf:
  "None \<notin> set (ports ec) \<Longrightarrow>
   \<exists>h'. nested_forks labels (\<lambda>c. errorf c p msg) ec h =
     (Thrown (ContextualError (name ec @ '' ('' @ innermost_label ec labels @ '')'') ''error''
                (ctx_text ec) p msg), h')"
proof (induction labels arbitrary: ec h)
  case Nil
  then show ?case
    by (simp add: errorf_def throw_def NewContextualError_def innermost_label_def)
next
  case (Cons l ls)
  from fork_present[OF Cons.prems, of l h] obtain ec' h' where
    f: "fork ec l h = Inr (ec', h')" "name ec' = name ec" "ctx_text ec' = ctx_text ec"
       "ctx_context ec' = l" "None \<notin> set (ports ec')"
    by blast
  from Cons.IH[OF f(5), of h'] obtain h'' where
    "nested_forks ls (\<lambda>c. errorf c p msg) ec' h' =
     (Thrown (ContextualError (name ec' @ '' ('' @ innermost_label ec' ls @ '')'') ''error''
                (ctx_text ec') p msg), h'')" by blast
  moreover have "innermost_label ec' ls = innermost_label ec (l # ls)"
    using f(4) by (simp add: innermost_label_def)
  ultimately show ?case using f by (simp add: in_fork_def)
qed

text \<open>
  Claim C1. \<open>PEval\<close> is the one recovery boundary. An operation that returns makes
  \<open>PEval\<close> return no error; an operation that raises a signal makes \<open>PEval\<close> return the
  error the signal carries. \<open>errorf\<close> raises a signal whose error carries the program
  name with the phase label, the tag \<open>error\<close>, the source text, the byte position and the
  message. Raised under any number of forks, none of which recovers anything, that
  signal reaches the \<open>PEval\<close> of the top context and is returned there, with the program
  name and source text of the top context and the phase label of the innermost fork.
\<close>

theorem PEval_single_recovery_boundary:
  "(op ec h = (Returned, h') \<longrightarrow> PEval ec op h = (Inr None, h')) \<and>
   (op ec h = (Thrown e, h') \<longrightarrow> PEval ec op h = (Inr (Some e), h')) \<and>
   errorf ec p msg h =
     (Thrown (ContextualError (name ec @ '' ('' @ ctx_context ec @ '')'') ''error''
                (ctx_text ec) p msg), h) \<and>
   (None \<notin> set (ports ec) \<longrightarrow>
      (\<exists>h''. PEval ec (nested_forks labels (\<lambda>c. errorf c p msg)) h =
         (Inr (Some (ContextualError (name ec @ '' ('' @ innermost_label ec labels @ '')'')
                       ''error'' (ctx_text ec) p msg)), h'')))"
proof -
  have a: "op ec h = (Returned, h') \<longrightarrow> PEval ec op h = (Inr None, h')"
    by (simp add: PEval_def Catch_def)
  have b: "op ec h = (Thrown e, h') \<longrightarrow> PEval ec op h = (Inr (Some e), h')"
    by (simp add: PEval_def Catch_def)
  have c: "errorf ec p msg h =
     (Thrown (ContextualError (name ec @ '' ('' @ ctx_context ec @ '')'') ''error''
                (ctx_text ec) p msg), h)"
    by (simp add: errorf_def throw_def NewContextualError_def)
  have d: "\<exists>h''. PEval ec (nested_forks labels (\<lambda>c. errorf c p msg)) h =
         (Inr (Some (ContextualError (name ec @ '' ('' @ innermost_label ec labels @ '')'')
                       ''error'' (ctx_text ec) p msg)), h'')"
    if "None \<notin> set (ports ec)"
  proof -
    from nested_errorf[OF that, of labels p msg h] obtain h'' where
      "nested_forks labels (\<lambda>c. errorf c p msg) ec h =
       (Thrown (ContextualError (name ec @ '' ('' @ innermost_label ec labels @ '')'') ''error''
                (ctx_text ec) p msg), h'')" by blast
    then show ?thesis by (simp add: PEval_def Catch_def)
  qed
  from a b c d show ?thesis by blast
qed

theorem PEval_single_recovery_boundary_witness:
  "PEval (example_ctx [Some 0, Some 1]) (\<lambda>c h. (Returned, h)) two_port_heap
     = (Inr None, two_port_heap) \<and>
   PEval (example_ctx [Some 0, Some 1]) (\<lambda>c h. (Thrown (flow 1), h)) two_port_heap
     = (Inr (Some (flow 1)), two_port_heap) \<and>
   (\<exists>h''. PEval (example_ctx [Some 0, Some 1])
            (nested_forks [''pipe'', ''block'', ''closure''] (\<lambda>c. errorf c 3 ''boom''))
            two_port_heap =
      (Inr (Some (ContextualError ''prog (closure)'' ''error'' ''put a'' 3 ''boom'')), h''))"
proof -
  let ?ec = "example_ctx [Some 0, Some 1]"
  have n: "None \<notin> set (ports ?ec)" by (simp add: example_ctx_def)
  have f: "name ?ec = ''prog''" "ctx_text ?ec = ''put a''"
    "innermost_label ?ec [''pipe'', ''block'', ''closure''] = ''closure''"
    by (simp_all add: example_ctx_def innermost_label_def)
  have 1: "PEval ?ec (\<lambda>c h. (Returned, h)) two_port_heap = (Inr None, two_port_heap)"
    using PEval_single_recovery_boundary[of "\<lambda>c h. (Returned, h)" ?ec two_port_heap two_port_heap]
    by simp
  have 2: "PEval ?ec (\<lambda>c h. (Thrown (flow 1), h)) two_port_heap
             = (Inr (Some (flow 1)), two_port_heap)"
    using PEval_single_recovery_boundary[of "\<lambda>c h. (Thrown (flow 1), h)" ?ec two_port_heap
        two_port_heap "flow 1"]
    by simp
  have 3: "\<exists>h''. PEval ?ec (nested_forks [''pipe'', ''block'', ''closure''] (\<lambda>c. errorf c 3 ''boom''))
            two_port_heap =
      (Inr (Some (ContextualError ''prog (closure)'' ''error'' ''put a'' 3 ''boom'')), h'')"
    using PEval_single_recovery_boundary[of "\<lambda>c h. (Returned, h)" ?ec two_port_heap two_port_heap
        "flow 1" 3 "''boom''" "[''pipe'', ''block'', ''closure'']"] n f
    by simp
  from 1 2 3 show ?thesis by blast
qed

subsection \<open>PprintError\<close>

lemma pprint_loop_join:
  "pprint_loop E cs i =
     (if i > 0 \<and> cs \<noteq> [] then '' | '' else []) @ join_with '' | '' (map (pprint_opt E) cs)"
proof (induction cs arbitrary: i)
  case Nil
  then show ?case by simp
next
  case (Cons c cs)
  show ?case
  proof (cases cs)
    case Nil
    then show ?thesis by simp
  next
    case (Cons d ds)
    then show ?thesis using Cons.IH[of "i + 1"] by simp
  qed
qed



text \<open>
  Claim C8. \<open>PprintError\<close> renders by kind: nil as the green \<open>ok\<close>; an aggregate as
  its entries' renderings in order, between parentheses and with \<open> | \<close> between
  neighbours, so for two entries \<open>(render a | render b)\<close>; a flow-control signal as its
  message in yellow; any other error as its message in bold red. The renderings of the
  kinds differ whatever the messages are. The function computes an output from the
  error and has no other effect on it.
\<close>

theorem PprintError_by_kind:
  "PprintError E None = ESC # ''[32mok'' @ ESC # ''[m'' \<and>
   PprintError E (Some (multiError cs)) =
     ''('' @ join_with '' | '' (map (PprintError E) cs) @ '')'' \<and>
   PprintError E (Some (multiError [a, b])) =
     ''('' @ PprintError E a @ '' | '' @ PprintError E b @ '')'' \<and>
   PprintError E (Some (flow n)) = ESC # ''[33m'' @ E (flow n) @ ESC # ''[m'' \<and>
   PprintError E (Some (ContextualError s t x p m)) =
     ESC # ''[31;1m'' @ E (ContextualError s t x p m) @ ESC # ''[m'' \<and>
   PprintError E (Some (OtherError m)) = ESC # ''[31;1m'' @ E (OtherError m) @ ESC # ''[m'' \<and>
   PprintError E None \<noteq> PprintError E (Some (flow n)) \<and>
   PprintError E None \<noteq> PprintError E (Some (OtherError m)) \<and>
   PprintError E (Some (flow n)) \<noteq> PprintError E (Some (OtherError m)) \<and>
   PprintError E (Some (flow n)) \<noteq> PprintError E (Some (ContextualError s t x p m)) \<and>
   PprintError E (Some (multiError cs)) \<noteq> PprintError E (Some (flow n))"
proof -
  have "PprintError E = pprint_opt E" by (rule ext) (simp add: PprintError_def)
  then show ?thesis by (simp add: pprint_loop_join ESC_def)
qed

subsection \<open>Variable resolution\<close>

text \<open>
  Claim C3. The precedence of \<open>ResolveVar\<close>, first match first. The qualifier \<open>env\<close>
  always gives an environment-backed binding for the name, whatever the environment
  and the namespaces hold. Otherwise a qualifier that names a registered module gives
  what that module's namespace holds for the name, nil when it holds nothing, and no
  other namespace is looked at. Otherwise an empty qualifier or \<open>local\<close> gives the local
  binding when there is one; an empty qualifier without a local binding, or \<open>up\<close>, gives
  the captured-enclosing binding when there is one; \<open>local\<close> never reaches the
  captured-enclosing namespace; every other case, and every other qualifier, gives nil.
\<close>

theorem ResolveVar_precedence:
  "ResolveVar h ec ''env'' nm = Some (EnvVariable nm) \<and>
   (q \<noteq> ''env'' \<and> ev_mod (evalerHeap h ! Evaler ec) q = Some m \<longrightarrow>
      ResolveVar h ec q nm = map_index (nsHeap h ! m) nm) \<and>
   (q \<noteq> ''env'' \<and> ev_mod (evalerHeap h ! Evaler ec) q = None \<longrightarrow>
      ((q = [] \<or> q = ''local'') \<and> (nsHeap h ! local ec) nm = Some v \<longrightarrow>
          ResolveVar h ec q nm = v) \<and>
      ((q = [] \<and> (nsHeap h ! local ec) nm = None \<or> q = ''up'') \<and>
       (nsHeap h ! up ec) nm = Some v \<longrightarrow>
          ResolveVar h ec q nm = v) \<and>
      (q = [] \<and> (nsHeap h ! local ec) nm = None \<and> (nsHeap h ! up ec) nm = None \<longrightarrow>
          ResolveVar h ec q nm = None) \<and>
      (q = ''local'' \<and> (nsHeap h ! local ec) nm = None \<longrightarrow> ResolveVar h ec q nm = None) \<and>
      (q = ''up'' \<and> (nsHeap h ! up ec) nm = None \<longrightarrow> ResolveVar h ec q nm = None) \<and>
      (q \<notin> {[], ''local'', ''up''} \<longrightarrow> ResolveVar h ec q nm = None))"
  by (auto simp: ResolveVar_def newEnvVariable_def may_def)

lemma resolve_heap_facts:
  "ev_mod (evalerHeap resolve_heap ! Evaler (example_ctx [])) ''re'' = Some 2"
  "q \<noteq> ''re'' \<Longrightarrow> ev_mod (evalerHeap resolve_heap ! Evaler (example_ctx [])) q = None"
  "nsHeap resolve_heap ! local (example_ctx []) = [''x'' \<mapsto> Some (PtrVariable 0)]"
  "nsHeap resolve_heap ! up (example_ctx []) =
     [''x'' \<mapsto> Some (PtrVariable 1), ''y'' \<mapsto> Some (PtrVariable 2)]"
  "nsHeap resolve_heap ! 2 = [''match'' \<mapsto> Some (PtrVariable 3)]"
  by (simp_all add: resolve_heap_def example_ctx_def)

theorem ResolveVar_precedence_witness:
  "ResolveVar resolve_heap (example_ctx []) ''env'' ''HOME'' = Some (EnvVariable ''HOME'') \<and>
   ResolveVar resolve_heap (example_ctx []) ''re'' ''match'' = Some (PtrVariable 3) \<and>
   ResolveVar resolve_heap (example_ctx []) ''re'' ''x'' = None \<and>
   ResolveVar resolve_heap (example_ctx []) [] ''x'' = Some (PtrVariable 0) \<and>
   ResolveVar resolve_heap (example_ctx []) ''local'' ''x'' = Some (PtrVariable 0) \<and>
   ResolveVar resolve_heap (example_ctx []) [] ''y'' = Some (PtrVariable 2) \<and>
   ResolveVar resolve_heap (example_ctx []) ''up'' ''x'' = Some (PtrVariable 1) \<and>
   ResolveVar resolve_heap (example_ctx []) [] ''z'' = None \<and>
   ResolveVar resolve_heap (example_ctx []) ''local'' ''y'' = None \<and>
   ResolveVar resolve_heap (example_ctx []) ''up'' ''z'' = None \<and>
   ResolveVar resolve_heap (example_ctx []) ''other'' ''x'' = None"
proof -
  let ?h = resolve_heap and ?ec = "example_ctx []"
  note f = resolve_heap_facts
  have 1: "ResolveVar ?h ?ec ''env'' ''HOME'' = Some (EnvVariable ''HOME'')"
    using ResolveVar_precedence[of ?h ?ec "''HOME''" "''re''" 2] by simp
  have 2: "ResolveVar ?h ?ec ''re'' ''match'' = Some (PtrVariable 3)"
    using ResolveVar_precedence[of ?h ?ec "''match''" "''re''" 2] f
    by (simp add: map_index_def)
  have 3: "ResolveVar ?h ?ec ''re'' ''x'' = None"
    using ResolveVar_precedence[of ?h ?ec "''x''" "''re''" 2] f
    by (simp add: map_index_def)
  have 4: "ResolveVar ?h ?ec [] ''x'' = Some (PtrVariable 0)"
    using ResolveVar_precedence[of ?h ?ec "''x''" "[]" _ "Some (PtrVariable 0)"] f
    by simp
  have 5: "ResolveVar ?h ?ec ''local'' ''x'' = Some (PtrVariable 0)"
    using ResolveVar_precedence[of ?h ?ec "''x''" "''local''" _ "Some (PtrVariable 0)"] f
    by simp
  have 6: "ResolveVar ?h ?ec [] ''y'' = Some (PtrVariable 2)"
    using ResolveVar_precedence[of ?h ?ec "''y''" "[]" _ "Some (PtrVariable 2)"] f
    by simp
  have 7: "ResolveVar ?h ?ec ''up'' ''x'' = Some (PtrVariable 1)"
    using ResolveVar_precedence[of ?h ?ec "''x''" "''up''" _ "Some (PtrVariable 1)"] f
    by simp
  have 8: "ResolveVar ?h ?ec [] ''z'' = None"
    using ResolveVar_precedence[of ?h ?ec "''z''" "[]"] f
    by simp
  have 9: "ResolveVar ?h ?ec ''local'' ''y'' = None"
    using ResolveVar_precedence[of ?h ?ec "''y''" "''local''"] f
    by simp
  have 10: "ResolveVar ?h ?ec ''up'' ''z'' = None"
    using ResolveVar_precedence[of ?h ?ec "''z''" "''up''"] f
    by simp
  have 11: "ResolveVar ?h ?ec ''other'' ''x'' = None"
    using ResolveVar_precedence[of ?h ?ec "''x''" "''other''"] f
    by simp
  from 1 2 3 4 5 6 7 8 9 10 11 show ?thesis by blast
qed

subsection \<open>NewEvaler\<close>

text \<open>\<open>Split\<close> cuts at every separator and loses nothing.\<close>

lemma Split_nonempty: "Split s c \<noteq> []"
  by (induction s) (auto split: list.splits)

lemma Split_no_sep: "e \<in> set (Split s c) \<Longrightarrow> c \<notin> set e"
  by (induction s arbitrary: e) (auto split: list.splits if_splits)

lemma Split_join: "join_with [c] (Split s c) = s"
proof (induction s)
  case Nil
  then show ?case by simp
next
  case (Cons x xs)
  show ?case
  proof (cases "Split xs c")
    case Nil
    then show ?thesis using Split_nonempty[of xs c] by simp
  next
    case (Cons y ys)
    then show ?thesis using Cons.IH by (cases ys) auto
  qed
qed

lemma add_builtins_frame:
  "portHeap (add_builtins bs g h) = portHeap h \<and>
   evalerHeap (add_builtins bs g h) = evalerHeap h \<and>
   length (nsHeap (add_builtins bs g h)) = length (nsHeap h) \<and>
   varHeap (add_builtins bs g h) = varHeap h @ map BuiltinFnValue bs"
  by (induction bs arbitrary: h) (simp_all add: newPtrVariable_def ns_assign_def)

lemma add_builtins_other_keys:
  "g < length (nsHeap h) \<Longrightarrow> k \<notin> (\<lambda>b. FnPrefix @ Name b) ` set bs \<Longrightarrow>
   (nsHeap (add_builtins bs g h) ! g) k = (nsHeap h ! g) k"
  by (induction bs arbitrary: h) (simp_all add: newPtrVariable_def ns_assign_def)

lemma add_builtins_dom:
  "g < length (nsHeap h) \<Longrightarrow>
   dom (nsHeap (add_builtins bs g h) ! g) = dom (nsHeap h ! g) \<union> (\<lambda>b. FnPrefix @ Name b) ` set bs"
  by (induction bs arbitrary: h) (auto simp: newPtrVariable_def ns_assign_def)

lemma add_builtins_binding:
  "g < length (nsHeap h) \<Longrightarrow> distinct (map Name bs) \<Longrightarrow> i < length bs \<Longrightarrow>
   (nsHeap (add_builtins bs g h) ! g) (FnPrefix @ Name (bs ! i)) =
     Some (Some (PtrVariable (length (varHeap h) + i)))"
proof (induction bs arbitrary: h i)
  case Nil
  then show ?case by simp
next
  case (Cons b bs)
  define h1 where "h1 = ns_assign g (FnPrefix @ Name b) (Some (PtrVariable (length (varHeap h))))
                          (h\<lparr>varHeap := varHeap h @ [BuiltinFnValue b]\<rparr>)"
  have step: "add_builtins (b # bs) g h = add_builtins bs g h1"
    by (simp add: h1_def newPtrVariable_def)
  have g1: "g < length (nsHeap h1)" using Cons.prems(1) by (simp add: h1_def ns_assign_def)
  have len1: "length (varHeap h1) = Suc (length (varHeap h))" by (simp add: h1_def ns_assign_def)
  show ?case
  proof (cases i)
    case 0
    have "FnPrefix @ Name b \<notin> (\<lambda>b. FnPrefix @ Name b) ` set bs"
      using Cons.prems(2) by auto
    from add_builtins_other_keys[OF g1 this]
    have "(nsHeap (add_builtins bs g h1) ! g) (FnPrefix @ Name b) = (nsHeap h1 ! g) (FnPrefix @ Name b)" .
    also have "\<dots> = Some (Some (PtrVariable (length (varHeap h))))"
      using Cons.prems(1) by (simp add: h1_def ns_assign_def)
    finally show ?thesis using 0 step by simp
  next
    case (Suc j)
    with Cons.prems have "distinct (map Name bs)" "j < length bs" by simp_all
    from Cons.IH[OF g1 this] show ?thesis using Suc step len1 by simp
  qed
qed

lemma add_builtins_value:
  assumes "g < length (nsHeap h)" "distinct (map Name bs)" "b \<in> set bs"
  shows "binding_value (add_builtins bs g h) g (FnPrefix @ Name b) = Some (BuiltinFnValue b)"
proof -
  from assms(3) obtain i where i: "i < length bs" "bs ! i = b" by (auto simp: in_set_conv_nth)
  from add_builtins_binding[OF assms(1,2) i(1)] i(2)
  have "(nsHeap (add_builtins bs g h) ! g) (FnPrefix @ Name b) =
     Some (Some (PtrVariable (length (varHeap h) + i)))" by simp
  then show ?thesis using i by (simp add: binding_value_def add_builtins_frame nth_append)
qed

lemma add_builtins_old_value:
  assumes "g < length (nsHeap h)" "k \<notin> (\<lambda>b. FnPrefix @ Name b) ` set bs"
    "binding_value h g k = Some v"
  shows "binding_value (add_builtins bs g h) g k = Some v"
  using assms add_builtins_other_keys[OF assms(1,2)]
  by (auto simp: binding_value_def add_builtins_frame nth_append
           split: option.splits Variable.splits if_splits)


lemma prefixed_not_fixed: "k \<in> fixed_names \<Longrightarrow> k \<notin> (\<lambda>b. FnPrefix @ Name b) ` set bs"
  by (auto simp: fixed_names_def FnPrefix_def)

lemma NewEvaler_unfold:
  "NewEvaler env pid bs st h =
     new_Evaler \<lparr>global = length (nsHeap h), ev_mod = Map.empty,
                 searchPaths = resolve_searchPaths env, store = st, Editor = None\<rparr>
       (add_builtins bs (length (nsHeap h)) (base_heap env pid h))"
  by (simp add: NewEvaler_def base_heap_def newPtrVariable_def new_ns_def Let_def eval_nat_numeral)

lemma base_heap_facts:
  "length (nsHeap h) < length (nsHeap (base_heap env pid h))"
  "dom (nsHeap (base_heap env pid h) ! length (nsHeap h)) = fixed_names"
  "binding_value (base_heap env pid h) (length (nsHeap h)) ''pid'' = Some (String (Itoa pid))"
  "binding_value (base_heap env pid h) (length (nsHeap h)) ''ok'' = Some OK"
  "binding_value (base_heap env pid h) (length (nsHeap h)) ''true'' = Some (Bool True)"
  "binding_value (base_heap env pid h) (length (nsHeap h)) ''false'' = Some (Bool False)"
  "binding_value (base_heap env pid h) (length (nsHeap h)) ''paths'' =
     Some (List (map String (resolve_searchPaths env)))"
  "evalerHeap (base_heap env pid h) = evalerHeap h"
  by (auto simp: base_heap_def binding_value_def fixed_names_def nth_append)

lemma NewEvaler_result:
  assumes "NewEvaler env pid bs st h = (r, h')"
  shows "r = length (evalerHeap h)"
    and "evalerHeap h' = evalerHeap h @ [\<lparr>global = length (nsHeap h), ev_mod = Map.empty,
                 searchPaths = resolve_searchPaths env, store = st, Editor = None\<rparr>]"
    and "dom (nsHeap h' ! length (nsHeap h)) = fixed_names \<union> (\<lambda>b. FnPrefix @ Name b) ` set bs"
    and "k \<in> fixed_names \<Longrightarrow> binding_value h' (length (nsHeap h)) k =
           binding_value (base_heap env pid h) (length (nsHeap h)) k"
    and "distinct (map Name bs) \<Longrightarrow> b \<in> set bs \<Longrightarrow>
           binding_value h' (length (nsHeap h)) (FnPrefix @ Name b) = Some (BuiltinFnValue b)"
proof -
  let ?g = "length (nsHeap h)"
  let ?h7 = "add_builtins bs ?g (base_heap env pid h)"
  from assms have r: "r = length (evalerHeap ?h7)"
    and h': "h' = ?h7\<lparr>evalerHeap := evalerHeap ?h7 @ [\<lparr>global = ?g, ev_mod = Map.empty,
                 searchPaths = resolve_searchPaths env, store = st, Editor = None\<rparr>]\<rparr>"
    by (simp_all add: NewEvaler_unfold new_Evaler_def)
  have bv: "binding_value h' ?g k = binding_value ?h7 ?g k" for k
    by (simp add: h' binding_value_def split: option.splits Variable.splits)
  show "r = length (evalerHeap h)"
    by (simp add: r add_builtins_frame base_heap_facts)
  show "evalerHeap h' = evalerHeap h @ [\<lparr>global = ?g, ev_mod = Map.empty,
                 searchPaths = resolve_searchPaths env, store = st, Editor = None\<rparr>]"
    by (simp add: h' add_builtins_frame base_heap_facts)
  show "dom (nsHeap h' ! ?g) = fixed_names \<union> (\<lambda>b. FnPrefix @ Name b) ` set bs"
    using add_builtins_dom[OF base_heap_facts(1)]
    by (simp add: h' base_heap_facts)
  show "binding_value h' ?g k = binding_value (base_heap env pid h) ?g k" if "k \<in> fixed_names"
  proof -
    from that obtain v where v: "binding_value (base_heap env pid h) ?g k = Some v"
      by (auto simp: fixed_names_def base_heap_facts)
    from add_builtins_old_value[OF base_heap_facts(1) prefixed_not_fixed[OF that] v]
    show ?thesis using v bv by simp
  qed
  show "binding_value h' ?g (FnPrefix @ Name b) = Some (BuiltinFnValue b)"
    if "distinct (map Name bs)" "b \<in> set bs"
    using add_builtins_value[OF base_heap_facts(1) that] bv by simp
qed

text \<open>
  Claim C7. \<open>NewEvaler\<close> always returns, and returns a new Evaler. Its search path is
  the value of \<open>PATH\<close> split at the colons, or the one entry \<open>/bin\<close> when \<open>PATH\<close> is unset
  or empty. Its module registry is empty, its store handle is the one given, its editor
  is nil. The names of its global namespace are exactly \<open>pid\<close>, \<open>ok\<close>, \<open>true\<close>, \<open>false\<close>,
  \<open>paths\<close> and the name of each built-in after the prefix \<open>&\<close>; they are bound to the
  decimal process id, the success value, the two booleans, the list of the search path's
  entries and, for a table whose names are distinct, each built-in itself.
\<close>

theorem NewEvaler_initial_state:
  "let R = NewEvaler env pid builtinFns st h; r = fst R; h' = snd R;
       ev = evalerHeap h' ! r; g = global ev
   in r = length (evalerHeap h) \<and> r < length (evalerHeap h') \<and>
      searchPaths ev =
        (if Getenv env ''PATH'' = [] then [''/bin'']
         else Split (Getenv env ''PATH'') CHR '':'') \<and>
      ev_mod ev = Map.empty \<and> store ev = st \<and> Editor ev = None \<and>
      dom (nsHeap h' ! g) = fixed_names \<union> (\<lambda>b. FnPrefix @ Name b) ` set builtinFns \<and>
      binding_value h' g ''pid'' = Some (String (Itoa pid)) \<and>
      binding_value h' g ''ok'' = Some OK \<and>
      binding_value h' g ''true'' = Some (Bool True) \<and>
      binding_value h' g ''false'' = Some (Bool False) \<and>
      binding_value h' g ''paths'' = Some (List (map String (searchPaths ev))) \<and>
      (distinct (map Name builtinFns) \<longrightarrow>
         (\<forall>b \<in> set builtinFns.
            binding_value h' g (FnPrefix @ Name b) = Some (BuiltinFnValue b)))"
proof -
  obtain r h' where R: "NewEvaler env pid builtinFns st h = (r, h')"
    by (cases "NewEvaler env pid builtinFns st h")
  note res = NewEvaler_result[OF R]
  have ev: "evalerHeap h' ! r = \<lparr>global = length (nsHeap h), ev_mod = Map.empty,
                 searchPaths = resolve_searchPaths env, store = st, Editor = None\<rparr>"
    by (simp add: res(1,2))
  have fx: "''pid'' \<in> fixed_names" "''ok'' \<in> fixed_names" "''true'' \<in> fixed_names"
    "''false'' \<in> fixed_names" "''paths'' \<in> fixed_names"
    by (simp_all add: fixed_names_def)
  have sp: "resolve_searchPaths env =
        (if Getenv env ''PATH'' = [] then [''/bin'']
         else Split (Getenv env ''PATH'') CHR '':'')"
    by (simp add: resolve_searchPaths_def Let_def)
  have bs: "distinct (map Name builtinFns) \<longrightarrow>
         (\<forall>b \<in> set builtinFns.
            binding_value h' (length (nsHeap h)) (FnPrefix @ Name b) = Some (BuiltinFnValue b))"
    using res(5) by blast
  show ?thesis
    unfolding Let_def R fst_conv snd_conv ev
    using res(1,2,3) res(4)[OF fx(1)] res(4)[OF fx(2)] res(4)[OF fx(3)] res(4)[OF fx(4)]
      res(4)[OF fx(5)] bs sp
    by (simp add: base_heap_facts)
qed

theorem NewEvaler_initial_state_witness:
  "let R = NewEvaler example_env 42 example_builtins (Some 0) empty_heap;
       h' = snd R; ev = evalerHeap h' ! fst R; g = global ev
   in fst R = 0 \<and>
      searchPaths ev = [''/usr/bin'', ''/bin''] \<and>
      dom (nsHeap h' ! g) = fixed_names \<union> {''&put'', ''&echo''} \<and>
      binding_value h' g ''pid'' = Some (String ''42'') \<and>
      binding_value h' g ''paths'' = Some (List [String ''/usr/bin'', String ''/bin'']) \<and>
      binding_value h' g ''&put'' = Some (BuiltinFnValue (BuiltinFn ''put'' 0)) \<and>
      binding_value h' g ''&echo'' = Some (BuiltinFnValue (BuiltinFn ''echo'' 1))"
proof -
  let ?R = "NewEvaler example_env 42 example_builtins (Some 0) empty_heap"
  let ?h = "snd ?R"
  let ?ev = "evalerHeap ?h ! fst ?R"
  let ?g = "global ?ev"
  note T = NewEvaler_initial_state[of example_env 42 example_builtins "Some 0" empty_heap,
      unfolded Let_def]
  have d: "distinct (map Name example_builtins)" by (simp add: example_builtins_def)
  have m: "BuiltinFn ''put'' 0 \<in> set example_builtins" "BuiltinFn ''echo'' 1 \<in> set example_builtins"
    by (simp_all add: example_builtins_def)
  have im: "(\<lambda>b. FnPrefix @ Name b) ` set example_builtins = {''&put'', ''&echo''}"
    by (simp add: example_builtins_def FnPrefix_def)
  have p: "Getenv example_env ''PATH'' = ''/usr/bin:/bin''"
    by (simp add: Getenv_def example_env_def)
  have sp: "Split ''/usr/bin:/bin'' CHR '':'' = [''/usr/bin'', ''/bin'']" by simp
  have i: "Itoa 42 = ''42''" by (simp add: Itoa_def)
  from T have 1: "fst ?R = 0" by (simp add: empty_heap_def)
  from T have "searchPaths ?ev = (if Getenv example_env ''PATH'' = [] then [''/bin'']
         else Split (Getenv example_env ''PATH'') CHR '':'')" by blast
  then have 2: "searchPaths ?ev = [''/usr/bin'', ''/bin'']" by (simp add: p)
  from T have "dom (nsHeap ?h ! ?g) = fixed_names \<union> (\<lambda>b. FnPrefix @ Name b) ` set example_builtins"
    by blast
  then have 3: "dom (nsHeap ?h ! ?g) = fixed_names \<union> {''&put'', ''&echo''}" by (simp only: im)
  from T have "binding_value ?h ?g ''pid'' = Some (String (Itoa 42))" by blast
  then have 4: "binding_value ?h ?g ''pid'' = Some (String ''42'')" by (simp only: i)
  from T have "binding_value ?h ?g ''paths'' = Some (List (map String (searchPaths ?ev)))" by blast
  then have 5: "binding_value ?h ?g ''paths'' = Some (List [String ''/usr/bin'', String ''/bin''])"
    by (simp add: 2)
  from T d have a: "\<forall>b \<in> set example_builtins.
            binding_value ?h ?g (FnPrefix @ Name b) = Some (BuiltinFnValue b)" by blast
  from a m(1) have 6: "binding_value ?h ?g ''&put'' = Some (BuiltinFnValue (BuiltinFn ''put'' 0))"
    by (force simp: FnPrefix_def)
  from a m(2) have 7: "binding_value ?h ?g ''&echo'' = Some (BuiltinFnValue (BuiltinFn ''echo'' 1))"
    by (force simp: FnPrefix_def)
  from 1 2 3 4 5 6 7 show ?thesis unfolding Let_def by blast
qed

end
